theory Spec2Isabelle
  imports Main
begin

section \<open>simple_scraper.py: the model\<close>

text \<open>
  A shallow embedding of \<^verbatim>\<open>src/simple_scraper.py\<close>. Python strings are
  \<open>string\<close> (character lists). Every separator the script splits on
  (\<open>.\<close>, \<open>,\<close>, \<open>:\<close>, \<open>/\<close>) is a single ASCII character.
  What a run does is kept as a trace of events, in the order of the calls:
  \<open>find_hotlinks\<close> and \<open>check_and_fix_protocol\<close> return their console
  output beside their value, the functions that touch the disk or the network
  pass a world along.
\<close>

subsection \<open>Strings\<close>

text \<open>
  \<^verbatim>\<open>s.split(sep)\<close> for a one-character separator: the pieces between the
  separators, empty pieces included; the result is never the empty list
  (\<^verbatim>\<open>"".split(".") == [""]\<close>, \<^verbatim>\<open>"a.".split(".") == ["a", ""]\<close>).
\<close>

fun str_split :: "char \<Rightarrow> string \<Rightarrow> string list" where
  "str_split sep [] = [[]]"
| "str_split sep (c # cs) =
     (if c = sep then [] # str_split sep cs
      else (case str_split sep cs of
              [] \<Rightarrow> [[c]]
            | w # ws \<Rightarrow> (c # w) # ws))"

text \<open>The spec's wording, for comparison with the code's \<^verbatim>\<open>split\<close> expressions.\<close>

definition after_last :: "char \<Rightarrow> string \<Rightarrow> string" where
  \<comment> \<open>the substring after the last \<open>c\<close>, or the entire string when it has no \<open>c\<close>\<close>
  "after_last c s =
     (if c \<in> set s then rev (takeWhile (\<lambda>x. x \<noteq> c) (rev s)) else s)"

definition before_first :: "char \<Rightarrow> string \<Rightarrow> string" where
  \<comment> \<open>the substring before the first \<open>c\<close> (all of the string when it has no \<open>c\<close>)\<close>
  "before_first c s = takeWhile (\<lambda>x. x \<noteq> c) s"

definition first_index :: "'a list \<Rightarrow> 'a \<Rightarrow> nat" where
  \<comment> \<open>the position of the first occurrence of \<open>x\<close> in \<open>xs\<close>\<close>
  "first_index xs x = length (takeWhile (\<lambda>y. y \<noteq> x) xs)"

subsection \<open>Console events\<close>

datatype event =
    Print string                \<comment> \<open>\<^verbatim>\<open>print\<close> of a string\<close>
  | PrintList "string list"     \<comment> \<open>\<^verbatim>\<open>print\<close> of a list of strings\<close>
  | Probe_Create string         \<comment> \<open>\<^verbatim>\<open>open(path, 'x')\<close>\<close>
  | Probe_Unlink string         \<comment> \<open>\<^verbatim>\<open>os.unlink(path)\<close>\<close>
  | Fetch string                \<comment> \<open>\<^verbatim>\<open>urlopen\<close> of the target page\<close>
  | Retrieve string string      \<comment> \<open>\<^verbatim>\<open>urlretrieve(url, full_path)\<close>\<close>
  | Sleep int                   \<comment> \<open>\<^verbatim>\<open>sleep(wait_time)\<close>\<close>

subsection \<open>find\_hotlinks\<close>

text \<open>
  Beautiful Soup is a library, not code of this repository: the parser is a
  parameter that maps the markup to the document's tags in document order
  (the order in which \<^verbatim>\<open>find_all\<close> visits them). A tag has a name and a
  dictionary of attributes.
\<close>

record tag =
  tag_name :: string
  attrs :: "string \<rightharpoonup> string"

definition find_all_href :: "tag list \<Rightarrow> tag list" where
  \<comment> \<open>\<^verbatim>\<open>soup.find_all(href=True)\<close>: the tags that have an \<^verbatim>\<open>href\<close> attribute\<close>
  "find_all_href soup = filter (\<lambda>t. attrs t ''href'' \<noteq> None) soup"

text \<open>
  \<^verbatim>\<open>for link in soup.find_all(href=True): hotlinks.append(link['href'])\<close>.
  Every tag the loop sees has the attribute, so the lookup never raises; the
  \<open>None\<close> branch is there for totality only.
\<close>

fun collect_hrefs :: "string list \<Rightarrow> tag list \<Rightarrow> string list" where
  "collect_hrefs hotlinks [] = hotlinks"
| "collect_hrefs hotlinks (link # rest) =
     (case attrs link ''href'' of
        Some v \<Rightarrow> collect_hrefs (hotlinks @ [v]) rest
      | None \<Rightarrow> collect_hrefs hotlinks rest)"

text \<open>
  \<^verbatim>\<open>list(OrderedDict.fromkeys(hotlinks))\<close>: the dictionary is its list of keys
  in insertion order; setting a key that is already there leaves its place.
\<close>

fun fromkeys_into :: "'a list \<Rightarrow> 'a list \<Rightarrow> 'a list" where
  "fromkeys_into d [] = d"
| "fromkeys_into d (k # ks) = fromkeys_into (if k \<in> set d then d else d @ [k]) ks"

definition fromkeys :: "'a list \<Rightarrow> 'a list" where
  "fromkeys ks = fromkeys_into [] ks"

definition deduped_hotlinks :: "(string \<Rightarrow> tag list) \<Rightarrow> string \<Rightarrow> string list" where
  "deduped_hotlinks BeautifulSoup html =
     fromkeys (collect_hrefs [] (find_all_href (BeautifulSoup html)))"

definition href_values :: "tag list \<Rightarrow> string list" where
  \<comment> \<open>the spec's wording: the href value of every element that declares one, in document order\<close>
  "href_values soup = List.map_filter (\<lambda>t. attrs t ''href'') soup"

definition link_ext :: "string \<Rightarrow> string" where
  \<comment> \<open>\<^verbatim>\<open>link.split(".")[-1::][0]\<close>: the slice keeps the last piece, \<^verbatim>\<open>[0]\<close> takes it\<close>
  "link_ext link =
     (let pieces = str_split CHR ''.'' link
      in hd (drop (length pieces - 1) pieces))"

text \<open>
  The filtering loop. The accumulator is \<^verbatim>\<open>filtered_list\<close> with the console
  output so far.
\<close>

fun filter_loop ::
  "string list \<Rightarrow> bool \<Rightarrow> string list \<Rightarrow> string list \<times> event list \<Rightarrow> string list \<times> event list"
where
  "filter_loop exts debug [] acc = acc"
| "filter_loop exts debug (link # rest) (filtered_list, out) =
     (let out1 = out @ (if debug
                        then [Print (''Checking '' @ link), Print ''Split: '', Print (link_ext link)]
                        else [])
      in filter_loop exts debug rest
           (if link_ext link \<in> set exts then filtered_list @ [link] else filtered_list, out1))"

text \<open>
  \<^verbatim>\<open>exts is not '*'\<close> compares identities. CPython keeps one object for each
  one-character Latin-1 string, the \<^verbatim>\<open>'*'\<close> of the command line included, so
  the test is modelled as inequality of strings.
\<close>

definition find_hotlinks ::
  "(string \<Rightarrow> tag list) \<Rightarrow> string \<Rightarrow> string \<Rightarrow> bool \<Rightarrow> string list \<times> event list"
where
  "find_hotlinks BeautifulSoup html exts debug =
     (let out0 = (if debug then [Print ''Finding hrefs.''] else []);
          deduped = deduped_hotlinks BeautifulSoup html;
          (filtered_list, out1) =
            (if exts \<noteq> ''*'' then
               (let exts_list = str_split CHR '','' exts;
                    out = out0 @ (if debug
                                  then [Print ''Passed good extensions: '', PrintList exts_list]
                                  else [])
                in filter_loop exts_list debug deduped ([], out))
             else (deduped, out0))
      in (filtered_list,
          out1 @ (if debug then map (\<lambda>link. Print (CHR 0x09 # link)) filtered_list else [])))"

subsection \<open>check\_and\_fix\_protocol\<close>

fun protocol_loop ::
  "string \<Rightarrow> bool \<Rightarrow> string list \<Rightarrow> string list \<times> event list \<Rightarrow> string list \<times> event list"
where
  "protocol_loop protocol debug [] acc = acc"
| "protocol_loop protocol debug (link # rest) (fixed_urllist, out) =
     (if CHR '':'' \<in> set link then
        protocol_loop protocol debug rest
          (fixed_urllist @ [link],
           out @ (if debug then [Print (''Link has protocol information: '' @ link)] else []))
      else
        (let protocol_added = protocol @ '':'' @ link
         in protocol_loop protocol debug rest
              (fixed_urllist @ [protocol_added],
               out @ (if debug
                      then [Print ''Link missing protocol information.'',
                            Print (''New link: '' @ protocol_added)]
                      else []))))"

definition check_and_fix_protocol ::
  "string \<Rightarrow> string list \<Rightarrow> bool \<Rightarrow> string list \<times> event list"
where
  "check_and_fix_protocol original_target urls debug =
     (let protocol = hd (str_split CHR '':'' original_target)
      in protocol_loop protocol debug urls ([], []))"

subsection \<open>Exceptions, the world, and the environment\<close>

datatype exc =
    SystemExit string     \<comment> \<open>\<^verbatim>\<open>raise SystemExit(message)\<close>\<close>
  | TypeError string
  | ValueError string
  | LibraryError string   \<comment> \<open>whatever a library call raised, with its text\<close>

definition exc_text :: "exc \<Rightarrow> string" where
  \<comment> \<open>\<^verbatim>\<open>str(ex)\<close>\<close>
  "exc_text ex = (case ex of SystemExit s \<Rightarrow> s | TypeError s \<Rightarrow> s
                  | ValueError s \<Rightarrow> s | LibraryError s \<Rightarrow> s)"

text \<open>
  The world a run acts on: the files on disk (path to content) and the trace of
  everything the run has done so far, oldest first.
\<close>

record world =
  files :: "string \<rightharpoonup> string"
  trace :: "event list"

datatype 'a attempt = Done 'a | Raised string

text \<open>
  What one call of \<^verbatim>\<open>urlretrieve(url, full_path)\<close> does. It either saves the
  content at the path and returns, or raises; it opens the file for writing
  before it reads the body, so a retrieval that breaks off may leave what it
  had written so far at the path (\<open>Some\<close>), or may not have touched the file
  (\<open>None\<close>).
\<close>

datatype retrieval =
    Saved string string             \<comment> \<open>content written, text of the returned value\<close>
  | Broken "string option" string   \<comment> \<open>content left at the path if any, text of the exception\<close>

text \<open>
  The environment: the library and system calls of the script, each a function
  of the world at the time of the call. \<open>namespace_str\<close> is \<^verbatim>\<open>str(args)\<close>,
  \<open>now_digest\<close> the first ten hex digits of the MD5 of the current time.
\<close>

record env =
  py_int :: "string \<Rightarrow> int attempt"
  namespace_str :: string
  now_digest :: "world \<Rightarrow> string"
  os_open_x :: "world \<Rightarrow> string \<Rightarrow> unit attempt"
  os_unlink :: "world \<Rightarrow> string \<Rightarrow> unit attempt"
  urlopen_read :: "world \<Rightarrow> string \<Rightarrow> (string \<times> string) attempt"
  BeautifulSoup :: "string \<Rightarrow> tag list"
  urlretrieve :: "world \<Rightarrow> string \<Rightarrow> string \<Rightarrow> retrieval"

type_synonym 'a io = "world \<Rightarrow> (exc + 'a) \<times> world"

definition io_return :: "'a \<Rightarrow> 'a io" where
  "io_return x = (\<lambda>w. (Inr x, w))"

definition io_raise :: "exc \<Rightarrow> 'a io" where
  "io_raise e = (\<lambda>w. (Inl e, w))"

definition io_bind :: "'a io \<Rightarrow> ('a \<Rightarrow> 'b io) \<Rightarrow> 'b io" where
  \<comment> \<open>one statement after another: an exception skips what follows\<close>
  "io_bind m f = (\<lambda>w. case m w of (Inl e, w') \<Rightarrow> (Inl e, w') | (Inr x, w') \<Rightarrow> f x w')"

definition io_try :: "'a io \<Rightarrow> (exc \<Rightarrow> 'a io) \<Rightarrow> 'a io" where
  \<comment> \<open>\<^verbatim>\<open>try: ... except BaseException as ex: ...\<close>\<close>
  "io_try m h = (\<lambda>w. case m w of (Inl e, w') \<Rightarrow> h e w' | (Inr x, w') \<Rightarrow> (Inr x, w'))"

definition io_when :: "bool \<Rightarrow> unit io \<Rightarrow> unit io" where
  "io_when b m = (if b then m else io_return ())"

definition emit :: "event \<Rightarrow> unit io" where
  "emit e = (\<lambda>w. (Inr (), w\<lparr>trace := trace w @ [e]\<rparr>))"

definition emit_all :: "event list \<Rightarrow> unit io" where
  "emit_all es = (\<lambda>w. (Inr (), w\<lparr>trace := trace w @ es\<rparr>))"

definition print :: "string \<Rightarrow> unit io" where
  "print s = emit (Print s)"

definition of_attempt :: "'a attempt \<Rightarrow> 'a io" where
  "of_attempt a = (case a of Done x \<Rightarrow> io_return x | Raised s \<Rightarrow> io_raise (LibraryError s))"

subsection \<open>The \<^verbatim>\<open>%\<close> operator on strings\<close>

datatype pyval = Str string | Num int

definition digit_char :: "nat \<Rightarrow> char" where
  "digit_char n = char_of (48 + n)"

fun digits :: "nat \<Rightarrow> string" where
  "digits n = (if n < 10 then [digit_char n] else digits (n div 10) @ [digit_char (n mod 10)])"

definition str_int :: "int \<Rightarrow> string" where
  "str_int i = (if i < 0 then CHR ''-'' # digits (nat (- i)) else digits (nat i))"

text \<open>
  \<^verbatim>\<open>fmt % args\<close> for the directives the script uses, \<^verbatim>\<open>%s\<close> and \<^verbatim>\<open>%d\<close>. An
  argument that is not a tuple counts as a tuple of one. Arguments left over
  when the format is used up are a \<^verbatim>\<open>TypeError\<close>, as in Python.
\<close>

fun str_format :: "string \<Rightarrow> pyval list \<Rightarrow> exc + string" where
  "str_format [] [] = Inr []"
| "str_format [] (a # as) =
     Inl (TypeError ''not all arguments converted during string formatting'')"
| "str_format [c] as =
     (if c = CHR ''%'' then Inl (ValueError ''incomplete format'')
      else (case str_format [] as of Inl e \<Rightarrow> Inl e | Inr r \<Rightarrow> Inr (c # r)))"
| "str_format (c # d # fmt) as =
     (if c = CHR ''%'' then
        (if d = CHR ''s'' \<or> d = CHR ''d'' then
           (case as of
              [] \<Rightarrow> Inl (TypeError ''not enough arguments for format string'')
            | Str a # as' \<Rightarrow>
                (if d = CHR ''d'' then Inl (TypeError ''%d format: a real number is required, not str'')
                 else (case str_format fmt as' of Inl e \<Rightarrow> Inl e | Inr r \<Rightarrow> Inr (a @ r)))
            | Num i # as' \<Rightarrow>
                (case str_format fmt as' of Inl e \<Rightarrow> Inl e | Inr r \<Rightarrow> Inr (str_int i @ r)))
         else Inl (ValueError ''unsupported format character''))
      else (case str_format (d # fmt) as of Inl e \<Rightarrow> Inl e | Inr r \<Rightarrow> Inr (c # r)))"

definition format :: "string \<Rightarrow> pyval list \<Rightarrow> string io" where
  "format fmt as = (case str_format fmt as of Inl e \<Rightarrow> io_raise e | Inr s \<Rightarrow> io_return s)"

subsection \<open>check\_if\_valid\_path\<close>

definition open_x :: "env \<Rightarrow> string \<Rightarrow> unit io" where
  \<comment> \<open>\<^verbatim>\<open>open(path, 'x')\<close>: creates the empty file or raises\<close>
  "open_x E p = (\<lambda>w.
     case os_open_x E w p of
       Raised s \<Rightarrow> (Inl (LibraryError s), w\<lparr>trace := trace w @ [Probe_Create p]\<rparr>)
     | Done u \<Rightarrow> (Inr (), w\<lparr>files := (files w)(p \<mapsto> []), trace := trace w @ [Probe_Create p]\<rparr>))"

definition unlink :: "env \<Rightarrow> string \<Rightarrow> unit io" where
  \<comment> \<open>\<^verbatim>\<open>os.unlink(path)\<close>: removes the file or raises\<close>
  "unlink E p = (\<lambda>w.
     case os_unlink E w p of
       Raised s \<Rightarrow> (Inl (LibraryError s), w\<lparr>trace := trace w @ [Probe_Unlink p]\<rparr>)
     | Done u \<Rightarrow> (Inr (), w\<lparr>files := (files w)(p := None), trace := trace w @ [Probe_Unlink p]\<rparr>))"

definition check_if_valid_path :: "env \<Rightarrow> string \<Rightarrow> bool \<Rightarrow> bool io" where
  "check_if_valid_path E path debug = (\<lambda>w0.
     (let filename = now_digest E w0 in
      io_bind (io_when debug
        (io_bind (format ''Checking if path is valid by touching %s'' [Str path]) (\<lambda>s.
         print (s @ ''/'' @ filename)))) (\<lambda>_.
      io_try
        (io_bind (open_x E (path @ ''/'' @ filename)) (\<lambda>_.
         io_bind (io_when debug
           (io_bind (print ''Successfully opened test file.'') (\<lambda>_.
            print ''Deleting test file...''))) (\<lambda>_.
         io_bind (unlink E (path @ ''/'' @ filename)) (\<lambda>_.
         io_return True))))
        (\<lambda>ex.
         io_bind (io_when debug (print (exc_text ex))) (\<lambda>_.
         io_bind (format ''Error, could not write to destination directory %s'' [Str path]) (\<lambda>msg.
         io_raise (SystemExit msg)))))) w0)"

subsection \<open>get\_target\_html\<close>

definition urlopen :: "env \<Rightarrow> string \<Rightarrow> (string \<times> string) io" where
  \<comment> \<open>the request, \<^verbatim>\<open>urlopen\<close> and \<^verbatim>\<open>response.read()\<close>: the headers' text and the body, or an exception\<close>
  "urlopen E url = (\<lambda>w.
     of_attempt (urlopen_read E w url) (w\<lparr>trace := trace w @ [Fetch url]\<rparr>))"

definition get_target_html :: "env \<Rightarrow> string \<Rightarrow> bool \<Rightarrow> string io" where
  "get_target_html E url debug =
     io_try
       (io_bind (io_when debug
          (io_bind (format ''Attempting to fetch %s'' [Str url]) print)) (\<lambda>_.
        io_bind (urlopen E url) (\<lambda>(info, html).
        io_bind (io_when debug (print info)) (\<lambda>_.
        io_return html))))
       (\<lambda>ex.
        io_bind (io_when debug (print (exc_text ex))) (\<lambda>_.
        io_bind (format ''Error, could not connect to target %s'' [Str url]) (\<lambda>msg.
        io_raise (SystemExit msg))))"

subsection \<open>download\_file\<close>

definition retrieve :: "env \<Rightarrow> string \<Rightarrow> string \<Rightarrow> string io" where
  \<comment> \<open>\<^verbatim>\<open>urlretrieve(url, full_path)\<close>\<close>
  "retrieve E url full_path = (\<lambda>w.
     case urlretrieve E w url full_path of
       Saved content res \<Rightarrow>
         (Inr res, w\<lparr>files := (files w)(full_path \<mapsto> content),
                     trace := trace w @ [Retrieve url full_path]\<rparr>)
     | Broken left ex \<Rightarrow>
         (Inl (LibraryError ex),
          w\<lparr>files := (case left of None \<Rightarrow> files w | Some c \<Rightarrow> (files w)(full_path \<mapsto> c)),
            trace := trace w @ [Retrieve url full_path]\<rparr>))"

definition sleep :: "int \<Rightarrow> unit io" where
  \<comment> \<open>\<^verbatim>\<open>time.sleep\<close> refuses a negative length\<close>
  "sleep t = (if t < 0 then io_raise (ValueError ''sleep length must be non-negative'')
              else emit (Sleep t))"

definition filename :: "string \<Rightarrow> string" where
  \<comment> \<open>\<^verbatim>\<open>filename = url.split("/")[-1]\<close>\<close>
  "filename url = last (str_split CHR ''/'' url)"

definition full_path :: "string \<Rightarrow> string \<Rightarrow> string" where
  \<comment> \<open>\<^verbatim>\<open>full_path = destination_dir + "/" + filename\<close>\<close>
  "full_path destination_dir url = destination_dir @ ''/'' @ filename url"

text \<open>
  \<open>download_file\<close> in its three blocks: the statement before the
  \<^verbatim>\<open>try\<close>, the body of the \<^verbatim>\<open>try\<close>, and the \<^verbatim>\<open>except\<close> handler.
\<close>

definition download_announce :: "string \<Rightarrow> string \<Rightarrow> bool \<Rightarrow> unit io" where
  "download_announce url fpath silent =
     io_when (\<not> silent)
       (io_bind (format ''[+] Downloading %s to %s...'' [Str url, Str fpath]) print)"

definition download_try ::
  "env \<Rightarrow> string \<Rightarrow> string \<Rightarrow> bool \<Rightarrow> bool \<Rightarrow> bool \<Rightarrow> int \<Rightarrow> bool io"
where
  "download_try E url fpath debug silent dry_run wait_time =
     io_bind
       (if \<not> dry_run then
          io_bind (retrieve E url fpath) (\<lambda>res.
          io_bind (sleep wait_time) (\<lambda>_.
          io_when debug (print res)))
        else
          io_when (\<not> silent) (print ''[!] Dry Run, no file saved!'')) (\<lambda>_.
     io_bind (io_when (\<not> silent) (print ''[+] Done.'')) (\<lambda>_.
     io_return True))"

definition download_except :: "string \<Rightarrow> bool \<Rightarrow> bool \<Rightarrow> bool \<Rightarrow> exc \<Rightarrow> bool io" where
  "download_except url debug silent halt_on_error ex =
     io_bind (io_when debug (print (exc_text ex))) (\<lambda>_.
     if halt_on_error then
       io_bind (format ''Download failed and halt on error set, halting.'' [Str url]) (\<lambda>msg.
       io_raise (SystemExit msg))
     else
       io_bind (io_when (\<not> silent)
         (io_bind (format ''[-] Download Failed'' [Str url]) print)) (\<lambda>_.
       io_return False))"

definition download_file ::
  "env \<Rightarrow> string \<Rightarrow> string \<Rightarrow> bool \<Rightarrow> bool \<Rightarrow> bool \<Rightarrow> bool \<Rightarrow> int \<Rightarrow> bool io"
where
  "download_file E url destination_dir debug silent halt_on_error dry_run wait_time =
     io_bind (download_announce url (full_path destination_dir url) silent) (\<lambda>_.
     io_try
       (download_try E url (full_path destination_dir url) debug silent dry_run wait_time)
       (download_except url debug silent halt_on_error))"

subsection \<open>main\<close>

text \<open>
  The parsed command line. \<^verbatim>\<open>argparse\<close> stores the options as strings and
  flags; a bare \<^verbatim>\<open>-f\<close> or \<^verbatim>\<open>-w\<close> with no value is not part of the model.
\<close>

record args =
  target_url :: string
  destination_directory :: string
  debug :: bool
  file_types :: string
  silent :: bool
  halt_error :: bool
  dry_run :: bool
  wait_time :: string

text \<open>The loop over \<^verbatim>\<open>links_to_download\<close>; the value of each call is dropped.\<close>

fun download_all ::
  "env \<Rightarrow> string \<Rightarrow> bool \<Rightarrow> bool \<Rightarrow> bool \<Rightarrow> bool \<Rightarrow> int \<Rightarrow> string list \<Rightarrow> unit io"
where
  "download_all E dir dbg sil halt dry wt [] w = (Inr (), w)"
| "download_all E dir dbg sil halt dry wt (link # rest) w =
     (case download_file E link dir dbg sil halt dry wt w of
        (Inl e, w') \<Rightarrow> (Inl e, w')
      | (Inr ok, w') \<Rightarrow> download_all E dir dbg sil halt dry wt rest w')"

fun print_links :: "string list \<Rightarrow> unit io" where
  "print_links [] w = (Inr (), w)"
| "print_links (link # rest) w =
     io_bind (io_bind (format [CHR 0x09, CHR ''%'', CHR ''s''] [Str link]) print)
       (\<lambda>_. print_links rest) w"

definition main_greeting :: "env \<Rightarrow> args \<Rightarrow> unit io" where
  \<comment> \<open>the prints before the path check\<close>
  "main_greeting E a =
     io_bind (io_when (debug a)
       (io_bind (print ''[!] DEBUG mode on.'') (\<lambda>_.
        io_bind (print ''Arguments object:'') (\<lambda>_.
        print (CHR 0x09 # namespace_str E))))) (\<lambda>_.
     io_when (\<not> silent a)
       (io_bind (io_bind (format ''[+] Scraping %s'' [Str (target_url a)]) print) (\<lambda>_.
        io_bind (format ''[+] Saving to %s'' [Str (destination_directory a)]) print)))"

definition main_report :: "bool \<Rightarrow> string list \<Rightarrow> unit io" where
  \<comment> \<open>the list of found links, printed before the downloads\<close>
  "main_report sil links_to_download =
     io_when (\<not> sil)
       (io_bind (io_bind (format ''[+] Found %d hotlinks.''
                            [Num (int (length links_to_download))]) print) (\<lambda>_.
        io_bind (print_links links_to_download) (\<lambda>_.
        print [CHR 0x0A])))"

definition main :: "env \<Rightarrow> args \<Rightarrow> unit io" where
  "main E a =
     io_bind (of_attempt (py_int E (wait_time a))) (\<lambda>WAIT_TIME.
     io_bind (main_greeting E a) (\<lambda>_.
     io_bind (check_if_valid_path E (destination_directory a) (debug a)) (\<lambda>_.
     io_bind (get_target_html E (target_url a) (debug a)) (\<lambda>html.
     (case find_hotlinks (BeautifulSoup E) html (file_types a) (debug a) of
        (found_hotlinks, out1) \<Rightarrow>
     io_bind (emit_all out1) (\<lambda>_.
     (case check_and_fix_protocol (target_url a) found_hotlinks (debug a) of
        (links_to_download, out2) \<Rightarrow>
     io_bind (emit_all out2) (\<lambda>_.
     io_bind (main_report (silent a) links_to_download) (\<lambda>_.
     download_all E (destination_directory a) (debug a) (silent a) (halt_error a)
       (dry_run a) WAIT_TIME links_to_download)))))))))"

definition exit_status :: "exc + unit \<Rightarrow> nat" where
  \<comment> \<open>the process's exit status: 0 at the end of \<^verbatim>\<open>main\<close>, 1 for \<^verbatim>\<open>SystemExit\<close> with a message and for any uncaught exception\<close>
  "exit_status r = (case r of Inr u \<Rightarrow> 0 | Inl (SystemExit msg) \<Rightarrow> 1 | Inl e \<Rightarrow> 1)"

definition is_network :: "event \<Rightarrow> bool" where
  "is_network e = (case e of Fetch u \<Rightarrow> True | Retrieve u p \<Rightarrow> True | _ \<Rightarrow> False)"

definition is_retrieve :: "event \<Rightarrow> bool" where
  "is_retrieve e = (case e of Retrieve u p \<Rightarrow> True | _ \<Rightarrow> False)"

definition is_sleep :: "event \<Rightarrow> bool" where
  "is_sleep e = (case e of Sleep t \<Rightarrow> True | _ \<Rightarrow> False)"

definition start :: "(string \<rightharpoonup> string) \<Rightarrow> world" where
  \<comment> \<open>the world when the process starts: the disk as it is, nothing done yet\<close>
  "start fs = \<lparr>files = fs, trace = []\<rparr>"

subsection \<open>Descriptions and a sample environment\<close>

text \<open>What a dry run prints for one link when it is not silent.\<close>

definition dry_run_lines :: "string \<Rightarrow> string \<Rightarrow> event list" where
  "dry_run_lines dir url =
     [Print (''[+] Downloading '' @ url @ '' to '' @ full_path dir url @ ''...''),
      Print ''[!] Dry Run, no file saved!'', Print ''[+] Done.'']"

text \<open>
  A concrete environment for the examples: the directory \<open>out\<close> is writable,
  no other is; the page has three links; the first file is saved, the second
  retrieval breaks off after writing part of the file, the third fails before
  any file is opened.
\<close>

definition sample_env :: env where
  "sample_env =
     \<lparr>py_int = (\<lambda>s. if s = ''1'' then Done 1 else if s = ''0'' then Done 0
                    else Raised ''invalid literal for int()''),
      namespace_str = ''Namespace()'',
      now_digest = (\<lambda>w. ''0123456789''),
      os_open_x = (\<lambda>w p. if take 4 p = ''out/'' then Done ()
                          else Raised ''No such file or directory''),
      os_unlink = (\<lambda>w p. Done ()),
      urlopen_read = (\<lambda>w u. Done (''Content-Type: text/html'', ''<html></html>'')),
      BeautifulSoup = (\<lambda>h. [\<lparr>tag_name = ''a'', attrs = [''href'' \<mapsto> ''//a/x.jpg'']\<rparr>,
                              \<lparr>tag_name = ''a'', attrs = [''href'' \<mapsto> ''//b/x.jpg'']\<rparr>,
                              \<lparr>tag_name = ''a'', attrs = [''href'' \<mapsto> ''//c/y.jpg'']\<rparr>]),
      urlretrieve = (\<lambda>w u p.
         if u = ''http://a/x.jpg'' then Saved ''AAAA'' ''ok''
         else if u = ''http://b/x.jpg'' then Broken (Some ''BB'') ''retrieval incomplete''
         else if u = ''http://c/y.jpg'' then Broken None ''HTTP Error 404: Not Found''
         else Saved ''DATA'' ''ok'')\<rparr>"

text \<open>The list \<^verbatim>\<open>links_to_download\<close> that \<open>main\<close> computes from the page.\<close>

definition links_to_download :: "env \<Rightarrow> args \<Rightarrow> string \<Rightarrow> string list" where
  "links_to_download E a html =
     fst (check_and_fix_protocol (target_url a)
            (fst (find_hotlinks (BeautifulSoup E) html (file_types a) (debug a))) (debug a))"

definition sample_args :: args where
  "sample_args =
     \<lparr>target_url = ''http://example.com/page'', destination_directory = ''out'',
      debug = False, file_types = ''jpg'', silent = False, halt_error = False,
      dry_run = False, wait_time = ''0''\<rparr>"

section \<open>Properties\<close>

subsection \<open>Splitting\<close>

lemma str_split_nonempty: "str_split c s \<noteq> []"
  by (induction s) (auto split: list.splits)

lemma str_split_no_sep: "c \<notin> set s \<Longrightarrow> str_split c s = [s]"
  by (induction s) auto

lemma hd_str_split: "hd (str_split c s) = takeWhile (\<lambda>x. x \<noteq> c) s"
  using str_split_nonempty [of c] by (induction s) (auto split: list.splits)

lemma str_split_sep_two: "c \<in> set s \<Longrightarrow> \<exists>w v vs. str_split c s = w # v # vs"
proof (induction s)
  case Nil
  then show ?case by simp
next
  case (Cons x xs)
  show ?case
  proof (cases "x = c")
    case True
    obtain v vs where "str_split c xs = v # vs"
      using str_split_nonempty [of c xs] by (cases "str_split c xs") auto
    with True show ?thesis by simp
  next
    case False
    with Cons.prems have "c \<in> set xs" by simp
    then obtain w v vs where "str_split c xs = w # v # vs"
      using Cons.IH by blast
    with False show ?thesis by simp
  qed
qed

lemma after_last_Cons_sep:
  "after_last c (c # s) = after_last c s"
proof (cases "c \<in> set s")
  case True
  then have "takeWhile (\<lambda>x. x \<noteq> c) (rev s @ [c]) = takeWhile (\<lambda>x. x \<noteq> c) (rev s)"
    by (intro takeWhile_append1 [of c]) auto
  with True show ?thesis by (simp add: after_last_def)
next
  case False
  then have "takeWhile (\<lambda>x. x \<noteq> c) (rev s @ [c]) = rev s @ takeWhile (\<lambda>x. x \<noteq> c) [c]"
    by (intro takeWhile_append2) auto
  with False show ?thesis by (simp add: after_last_def)
qed

lemma after_last_Cons_other:
  assumes "x \<noteq> c" and "c \<in> set s"
  shows "after_last c (x # s) = after_last c s"
proof -
  from assms(2)
  have "takeWhile (\<lambda>x. x \<noteq> c) (rev s @ [x]) = takeWhile (\<lambda>x. x \<noteq> c) (rev s)"
    by (intro takeWhile_append1 [of c]) auto
  with assms show ?thesis by (simp add: after_last_def)
qed

lemma last_str_split: "last (str_split c s) = after_last c s"
proof (induction s)
  case Nil
  then show ?case by (simp add: after_last_def)
next
  case (Cons x xs)
  show ?case
  proof (cases "x = c")
    case True
    then show ?thesis
      using Cons.IH str_split_nonempty [of c xs] by (simp add: after_last_Cons_sep)
  next
    case False
    show ?thesis
    proof (cases "c \<in> set xs")
      case True
      then obtain w v vs where "str_split c xs = w # v # vs"
        using str_split_sep_two by blast
      with False True Cons.IH show ?thesis
        by (simp add: after_last_Cons_other)
    next
      case no: False
      with False show ?thesis
        by (simp add: str_split_no_sep after_last_def)
    qed
  qed
qed

lemma link_ext_last: "link_ext link = last (str_split CHR ''.'' link)"
proof -
  have "xs \<noteq> [] \<Longrightarrow> hd (drop (length xs - 1) xs) = last xs" for xs :: "string list"
    by (induction xs) (auto simp: Suc_diff_le drop_Cons split: nat.splits)
  then show ?thesis
    by (simp add: link_ext_def Let_def str_split_nonempty)
qed

lemma link_ext_after_last: "link_ext link = after_last CHR ''.'' link"
  by (simp add: link_ext_last last_str_split)

subsection \<open>The loops of find\_hotlinks and check\_and\_fix\_protocol\<close>

lemma collect_hrefs_eq:
  "collect_hrefs acc ts = acc @ List.map_filter (\<lambda>t. attrs t ''href'') ts"
  by (induction ts arbitrary: acc) (auto simp: List.map_filter_simps split: option.splits)

lemma map_filter_find_all_href:
  "List.map_filter (\<lambda>t. attrs t ''href'') (find_all_href soup) = href_values soup"
  unfolding find_all_href_def href_values_def
  by (induction soup) (auto simp: List.map_filter_simps split: option.splits)

lemma deduped_hotlinks_eq:
  "deduped_hotlinks P html = fromkeys (href_values (P html))"
  by (simp add: deduped_hotlinks_def collect_hrefs_eq map_filter_find_all_href)

lemma filter_loop_fst:
  "fst (filter_loop exts dbg links (acc, out)) = acc @ filter (\<lambda>l. link_ext l \<in> set exts) links"
  by (induction links arbitrary: acc out) (simp_all add: Let_def)

lemma protocol_loop_fst:
  "fst (protocol_loop p dbg urls (acc, out)) =
     acc @ map (\<lambda>l. if CHR '':'' \<in> set l then l else p @ '':'' @ l) urls"
  by (induction urls arbitrary: acc out) (simp_all add: Let_def)

lemma find_hotlinks_star_eq:
  "fst (find_hotlinks P html ''*'' dbg) = deduped_hotlinks P html"
  by (simp add: find_hotlinks_def Let_def)

lemma find_hotlinks_filter_eq:
  assumes "exts \<noteq> ''*''"
  shows "fst (find_hotlinks P html exts dbg) =
         filter (\<lambda>link. after_last CHR ''.'' link \<in> set (str_split CHR '','' exts)) (deduped_hotlinks P html)"
proof -
  obtain fl out where eq: "filter_loop (str_split CHR '','' exts) dbg (deduped_hotlinks P html)
      ([], (if dbg then [Print ''Finding hrefs.''] else []) @
           (if dbg then [Print ''Passed good extensions: '', PrintList (str_split CHR '','' exts)] else [])) = (fl, out)"
    by (cases "filter_loop (str_split CHR '','' exts) dbg (deduped_hotlinks P html)
      ([], (if dbg then [Print ''Finding hrefs.''] else []) @
           (if dbg then [Print ''Passed good extensions: '', PrintList (str_split CHR '','' exts)] else []))")
  have "fl = filter (\<lambda>l. link_ext l \<in> set (str_split CHR '','' exts)) (deduped_hotlinks P html)"
    using filter_loop_fst [of "str_split CHR '','' exts" dbg "deduped_hotlinks P html" "[]"] eq
    by (metis append_Nil fst_conv)
  with assms eq show ?thesis
    by (simp add: find_hotlinks_def Let_def link_ext_after_last)
qed

lemma check_and_fix_protocol_map_eq:
  "fst (check_and_fix_protocol target urls dbg) =
     map (\<lambda>link. if CHR '':'' \<in> set link then link else before_first CHR '':'' target @ '':'' @ link) urls"
  using protocol_loop_fst [of _ dbg urls "[]" "[]"]
  by (simp add: check_and_fix_protocol_def Let_def hd_str_split before_first_def)

subsection \<open>Insertion order of the dictionary\<close>

lemma fromkeys_into_set: "set (fromkeys_into d ks) = set d \<union> set ks"
  by (induction ks arbitrary: d) auto

lemma fromkeys_into_distinct: "distinct d \<Longrightarrow> distinct (fromkeys_into d ks)"
  by (induction ks arbitrary: d) auto

lemma first_index_append:
  "first_index (xs @ ys) a =
     (if a \<in> set xs then first_index xs a else length xs + first_index ys a)"
proof (cases "a \<in> set xs")
  case True
  then have "takeWhile (\<lambda>y. y \<noteq> a) (xs @ ys) = takeWhile (\<lambda>y. y \<noteq> a) xs"
    by (intro takeWhile_append1 [of a]) auto
  with True show ?thesis by (simp add: first_index_def)
next
  case False
  then have "takeWhile (\<lambda>y. y \<noteq> a) (xs @ ys) = xs @ takeWhile (\<lambda>y. y \<noteq> a) ys"
    by (intro takeWhile_append2) auto
  with False show ?thesis by (simp add: first_index_def)
qed

lemma first_index_Cons:
  "first_index (x # xs) a = (if a = x then 0 else Suc (first_index xs a))"
  by (auto simp: first_index_def)

lemma first_index_le: "first_index xs a \<le> length xs"
  by (simp add: first_index_def length_takeWhile_le)

lemma first_index_less: "a \<in> set xs \<Longrightarrow> first_index xs a < length xs"
  by (induction xs) (auto simp: first_index_Cons)

lemma distinct_sorted_first_index:
  "distinct d \<Longrightarrow> sorted_wrt (\<lambda>a b. first_index (d @ ks) a < first_index (d @ ks) b) d"
proof (induction d arbitrary: ks rule: rev_induct)
  case Nil
  then show ?case by simp
next
  case (snoc x xs)
  have "sorted_wrt (\<lambda>a b. first_index (xs @ x # ks) a < first_index (xs @ x # ks) b) xs"
    using snoc.IH [of "x # ks"] snoc.prems by simp
  moreover have "\<forall>a\<in>set xs. first_index (xs @ x # ks) a < first_index (xs @ x # ks) x"
    using snoc.prems
    by (auto simp: first_index_append first_index_Cons dest: first_index_less)
  ultimately show ?case
    by (simp add: sorted_wrt_append)
qed

lemma fromkeys_into_sorted:
  "distinct d \<Longrightarrow>
   sorted_wrt (\<lambda>a b. first_index (d @ ks) a < first_index (d @ ks) b) (fromkeys_into d ks)"
proof (induction ks arbitrary: d)
  case Nil
  then show ?case using distinct_sorted_first_index [of d "[]"] by simp
next
  case (Cons k ks)
  show ?case
  proof (cases "k \<in> set d")
    case True
    have "sorted_wrt (\<lambda>a b. first_index (d @ ks) a < first_index (d @ ks) b) (fromkeys_into d ks)"
      using Cons by simp
    then have "sorted_wrt (\<lambda>a b. first_index (d @ k # ks) a < first_index (d @ k # ks) b)
                 (fromkeys_into d ks)"
    proof (rule sorted_wrt_mono_rel [rotated])
      fix a b
      assume "first_index (d @ ks) a < first_index (d @ ks) b"
      with True show "first_index (d @ k # ks) a < first_index (d @ k # ks) b"
        using first_index_less [of b d] first_index_less [of k d]
        by (auto simp: first_index_append first_index_Cons split: if_splits)
    qed
    with True show ?thesis by simp
  next
    case False
    with Cons.prems have "distinct (d @ [k])" by simp
    from Cons.IH [OF this] False show ?thesis by simp
  qed
qed

lemma fromkeys_first_occurrence:
  "distinct (fromkeys xs) \<and> set (fromkeys xs) = set xs \<and>
   sorted_wrt (\<lambda>a b. first_index xs a < first_index xs b) (fromkeys xs)"
  using fromkeys_into_sorted [of "[]" xs]
  by (simp add: fromkeys_def fromkeys_into_set fromkeys_into_distinct)

subsection \<open>The link sequence before filtering\<close>

text \<open>
  Claim C2. For every parser and markup, the link sequence \<open>find_hotlinks\<close>
  builds before filtering has no value twice, holds exactly the href values
  of the document's tags that declare one, and lists them by the position of
  their first occurrence among those values.
\<close>

theorem deduped_hotlinks_first_occurrence_order:
  "distinct (deduped_hotlinks P html) \<and>
   set (deduped_hotlinks P html) = set (href_values (P html)) \<and>
   sorted_wrt (\<lambda>a b. first_index (href_values (P html)) a < first_index (href_values (P html)) b)
     (deduped_hotlinks P html)"
proof -
  have hrefs: "deduped_hotlinks P html = fromkeys (href_values (P html))"
    by (rule deduped_hotlinks_eq)
  show ?thesis
    unfolding hrefs by (rule fromkeys_first_occurrence)
qed

subsection \<open>The extension filter\<close>

text \<open>
  Claim C9. With the extension argument \<open>*\<close>, \<open>find_hotlinks\<close> returns the
  deduplicated link sequence as it is.
\<close>

theorem find_hotlinks_allow_all:
  "fst (find_hotlinks P html ''*'' dbg) = deduped_hotlinks P html"
  unfolding find_hotlinks_def
  by (simp add: Let_def)

text \<open>
  Claim C1. For an extension argument other than \<open>*\<close>, \<open>find_hotlinks\<close> keeps
  exactly the links of the deduplicated sequence whose text after the last
  \<open>.\<close> (the whole link when it has no \<open>.\<close>) is one of the pieces of the
  comma-split argument, compared as strings; so a link with no \<open>.\<close> is kept
  only when the link itself is one of the pieces.
\<close>

theorem find_hotlinks_filter_correct:
  assumes "exts \<noteq> ''*''"
  shows "fst (find_hotlinks P html exts dbg) =
           filter (\<lambda>link. after_last CHR ''.'' link \<in> set (str_split CHR '','' exts))
             (deduped_hotlinks P html) \<and>
         (\<forall>link. CHR ''.'' \<notin> set link \<longrightarrow>
            (link \<in> set (fst (find_hotlinks P html exts dbg)) \<longleftrightarrow>
             link \<in> set (deduped_hotlinks P html) \<and> link \<in> set (str_split CHR '','' exts)))"
  using find_hotlinks_filter_eq [OF assms, of P html dbg]
  by (auto simp: after_last_def)

theorem find_hotlinks_filter_correct_witness:
  "''pdf,jpg'' \<noteq> ''*'' \<and>
   fst (find_hotlinks
         (\<lambda>h. [\<lparr>tag_name = ''a'', attrs = [''href'' \<mapsto> ''https://x.com/a.jpg'']\<rparr>,
                \<lparr>tag_name = ''a'', attrs = [''href'' \<mapsto> ''https://x.com/report.PDF'']\<rparr>,
                \<lparr>tag_name = ''a'', attrs = [''href'' \<mapsto> ''pdf'']\<rparr>,
                \<lparr>tag_name = ''a'', attrs = [''href'' \<mapsto> ''index'']\<rparr>])
         ''<html>'' ''pdf,jpg'' False)
     = [''https://x.com/a.jpg'', ''pdf'']"
  using find_hotlinks_filter_correct
    [of "''pdf,jpg''"
        "\<lambda>h. [\<lparr>tag_name = ''a'', attrs = [''href'' \<mapsto> ''https://x.com/a.jpg'']\<rparr>,
                \<lparr>tag_name = ''a'', attrs = [''href'' \<mapsto> ''https://x.com/report.PDF'']\<rparr>,
                \<lparr>tag_name = ''a'', attrs = [''href'' \<mapsto> ''pdf'']\<rparr>,
                \<lparr>tag_name = ''a'', attrs = [''href'' \<mapsto> ''index'']\<rparr>]"
        "''<html>''" False]
  by (simp add: deduped_hotlinks_def find_all_href_def fromkeys_def after_last_def)

subsection \<open>Scheme repair\<close>

lemma before_first_prefix:
  assumes "c \<in> set s"
  shows "\<exists>rest. s = before_first c s @ c # rest" and "c \<notin> set (before_first c s)"
proof -
  have "s = takeWhile (\<lambda>x. x \<noteq> c) s @ dropWhile (\<lambda>x. x \<noteq> c) s" by simp
  moreover from assms have "dropWhile (\<lambda>x. x \<noteq> c) s \<noteq> []" by (simp add: dropWhile_eq_Nil_conv)
  moreover have "hd (dropWhile (\<lambda>x. x \<noteq> c) s) = c"
    using hd_dropWhile [of "\<lambda>x. x \<noteq> c" s] calculation(2) by simp
  ultimately show "\<exists>rest. s = before_first c s @ c # rest"
    unfolding before_first_def by (metis list.collapse)
  show "c \<notin> set (before_first c s)"
    unfolding before_first_def by (auto dest: set_takeWhileD)
qed

text \<open>
  Claim C3. For every target URL and list of links, \<open>check_and_fix_protocol\<close>
  returns, in the order of the input and with the same length, each link that
  contains \<open>:\<close> unchanged and each other link as the target's text before its
  first \<open>:\<close>, then \<open>:\<close>, then the link.
\<close>

theorem check_and_fix_protocol_scheme_repair:
  "fst (check_and_fix_protocol target urls dbg) =
     map (\<lambda>link. if CHR '':'' \<in> set link then link
                  else before_first CHR '':'' target @ '':'' @ link) urls \<and>
   length (fst (check_and_fix_protocol target urls dbg)) = length urls"
proof -
  have "hd (str_split CHR '':'' target) = before_first CHR '':'' target"
    by (simp add: hd_str_split before_first_def)
  then have "fst (check_and_fix_protocol target urls dbg) =
     map (\<lambda>link. if CHR '':'' \<in> set link then link
                  else before_first CHR '':'' target @ '':'' @ link) urls"
    using protocol_loop_fst [of "hd (str_split CHR '':'' target)" dbg urls "[]" "[]"]
    by (simp add: check_and_fix_protocol_def)
  then show ?thesis by simp
qed

subsection \<open>download\_file\<close>

lemmas io_defs = io_bind_def io_try_def io_when_def io_return_def io_raise_def
  print_def emit_def emit_all_def format_def of_attempt_def

lemma fmt_downloading:
  "str_format ''[+] Downloading %s to %s...'' [Str a, Str b] =
     Inr (''[+] Downloading '' @ a @ '' to '' @ b @ ''...'')"
  by simp

lemma fmt_halt:
  "str_format ''Download failed and halt on error set, halting.'' [Str u] =
     Inl (TypeError ''not all arguments converted during string formatting'')"
  by simp

lemma fmt_failed:
  "str_format ''[-] Download Failed'' [Str u] =
     Inl (TypeError ''not all arguments converted during string formatting'')"
  by simp

lemma download_announce_eq:
  "download_announce url fp sil w =
   (Inr (), if sil then w
            else w\<lparr>trace := trace w @ [Print (''[+] Downloading '' @ url @ '' to '' @ fp @ ''...'')]\<rparr>)"
  by (simp add: download_announce_def io_defs fmt_downloading del: str_format.simps)

lemma download_except_eq:
  "download_except url dbg sil halt ex w =
   (if halt \<or> \<not> sil
    then Inl (TypeError ''not all arguments converted during string formatting'')
    else Inr False,
    if dbg then w\<lparr>trace := trace w @ [Print (exc_text ex)]\<rparr> else w)"
  by (simp add: download_except_def io_defs fmt_halt fmt_failed del: str_format.simps)

lemma download_try_dry_eq:
  "download_try E url fp dbg sil True wt w =
   (Inr True, w\<lparr>trace := trace w @
      (if sil then [] else [Print ''[!] Dry Run, no file saved!'', Print ''[+] Done.''])\<rparr>)"
  by (simp add: download_try_def io_defs)

lemma download_try_live_eq:
  "download_try E url fp dbg sil False wt w =
   (case urlretrieve E w url fp of
      Saved content res \<Rightarrow>
        (if wt < 0
         then (Inl (ValueError ''sleep length must be non-negative''),
               w\<lparr>files := (files w)(fp \<mapsto> content), trace := trace w @ [Retrieve url fp]\<rparr>)
         else (Inr True,
               w\<lparr>files := (files w)(fp \<mapsto> content),
                 trace := trace w @ [Retrieve url fp, Sleep wt] @
                          (if dbg then [Print res] else []) @
                          (if sil then [] else [Print ''[+] Done.''])\<rparr>))
    | Broken left ex \<Rightarrow>
        (Inl (LibraryError ex),
         w\<lparr>files := (case left of None \<Rightarrow> files w | Some c \<Rightarrow> (files w)(fp \<mapsto> c)),
           trace := trace w @ [Retrieve url fp]\<rparr>))"
  by (simp add: download_try_def io_defs retrieve_def sleep_def split: retrieval.splits)

lemma download_file_eq:
  "download_file E url dir dbg sil halt dry wt w =
     (case download_try E url (full_path dir url) dbg sil dry wt
             (snd (download_announce url (full_path dir url) sil w)) of
        (Inl ex, w') \<Rightarrow> download_except url dbg sil halt ex w'
      | (Inr ok, w') \<Rightarrow> (Inr ok, w'))"
  by (simp add: download_file_def io_bind_def io_try_def download_announce_eq)

lemma download_file_dry:
  "download_file E url dir dbg sil halt True wt w =
     (Inr True,
      w\<lparr>trace := trace w @
           (if sil then []
            else [Print (''[+] Downloading '' @ url @ '' to '' @ full_path dir url @ ''...''),
                  Print ''[!] Dry Run, no file saved!'', Print ''[+] Done.''])\<rparr>)"
  by (simp add: download_file_eq download_announce_eq download_try_dry_eq)

lemma download_file_files_frame:
  "p \<noteq> full_path dir url \<Longrightarrow> files (snd (download_file E url dir dbg sil halt dry wt w)) p = files w p"
  by (cases dry)
     (simp_all add: download_file_eq download_announce_eq download_try_dry_eq download_try_live_eq
        download_except_eq split: retrieval.splits option.splits)

lemma download_file_retrievals:
  "filter is_retrieve (trace (snd (download_file E url dir dbg sil halt dry wt w))) =
     filter is_retrieve (trace w) @ (if dry then [] else [Retrieve url (full_path dir url)])"
  by (cases dry)
     (simp_all add: download_file_eq download_announce_eq download_try_dry_eq download_try_live_eq
        download_except_eq is_retrieve_def split: retrieval.splits option.splits)

lemma download_file_result:
  "fst (download_file E url dir dbg sil halt dry wt w) = Inr True \<or>
   fst (download_file E url dir dbg sil halt dry wt w) = Inr False \<and> \<not> halt \<and> sil \<and> \<not> dry \<or>
   fst (download_file E url dir dbg sil halt dry wt w) =
     Inl (TypeError ''not all arguments converted during string formatting'') \<and> (halt \<or> \<not> sil) \<and> \<not> dry"
  by (cases dry)
     (simp_all add: download_file_eq download_announce_eq download_try_dry_eq download_try_live_eq
        download_except_eq split: retrieval.splits option.splits)


lemma download_all_append:
  "download_all E dir dbg sil halt dry wt (xs @ ys) w =
     (case download_all E dir dbg sil halt dry wt xs w of
        (Inl e, w') \<Rightarrow> (Inl e, w')
      | (Inr u, w') \<Rightarrow> download_all E dir dbg sil halt dry wt ys w')"
  by (induction xs arbitrary: w) (auto split: prod.splits sum.splits)

lemma download_all_dry:
  "download_all E dir dbg sil halt True wt links w =
     (Inr (), w\<lparr>trace := trace w @ (if sil then [] else concat (map (dry_run_lines dir) links))\<rparr>)"
  by (induction links arbitrary: w) (simp_all add: download_file_dry dry_run_lines_def)

lemma dry_run_lines_quiet:
  "filter (\<lambda>e. is_retrieve e \<or> is_sleep e) (concat (map (dry_run_lines dir) links)) = []"
  by (induction links) (simp_all add: dry_run_lines_def is_retrieve_def is_sleep_def)

text \<open>
  Claim C6. With dry-run set, \<open>download_file\<close> returns \<open>True\<close> for every
  link and changes nothing but the console, where it reports the link unless
  silent; so the loop over the links goes through all of them, leaves the
  files as they were and adds no retrieval and no sleep to the trace.
\<close>

theorem download_file_dry_run_no_effects:
  "download_file E url dir dbg sil halt True wt w =
     (Inr True, w\<lparr>trace := trace w @ (if sil then [] else dry_run_lines dir url)\<rparr>) \<and>
   download_all E dir dbg sil halt True wt links w =
     (Inr (), w\<lparr>trace := trace w @ (if sil then [] else concat (map (dry_run_lines dir) links))\<rparr>) \<and>
   files (snd (download_all E dir dbg sil halt True wt links w)) = files w \<and>
   filter (\<lambda>e. is_retrieve e \<or> is_sleep e)
     (trace (snd (download_all E dir dbg sil halt True wt links w))) =
   filter (\<lambda>e. is_retrieve e \<or> is_sleep e) (trace w)"
  by (simp add: download_file_dry download_all_dry dry_run_lines_quiet)
     (simp add: dry_run_lines_def)

lemma filename_trailing_slash:
  assumes "url \<noteq> []" and "last url = CHR ''/''"
  shows "filename url = []"
proof -
  from assms obtain pre where "url = pre @ ''/''"
    by (metis append_butlast_last_id)
  then show ?thesis
    by (simp add: filename_def last_str_split after_last_def)
qed

text \<open>
  Claim C10. For a URL that ends in \<open>/\<close> the file name \<open>download_file\<close>
  derives is empty and the path it writes to is the destination directory
  followed by \<open>/\<close>: the only retrieval it makes targets that path, and no
  file at any other path changes.
\<close>

theorem download_file_trailing_slash:
  assumes "url \<noteq> []" and "last url = CHR ''/''"
  shows "filename url = [] \<and> full_path dir url = dir @ ''/'' \<and>
         filter is_retrieve (trace (snd (download_file E url dir dbg sil halt dry wt w))) =
           filter is_retrieve (trace w) @ (if dry then [] else [Retrieve url (dir @ ''/'')]) \<and>
         (\<forall>p. p \<noteq> dir @ ''/'' \<longrightarrow>
            files (snd (download_file E url dir dbg sil halt dry wt w)) p = files w p)"
  using filename_trailing_slash [OF assms] download_file_retrievals [of E url dir dbg sil halt dry wt w]
    download_file_files_frame [of _ dir url E dbg sil halt dry wt w]
  by (simp add: full_path_def)

theorem download_file_trailing_slash_witness:
  "''http://a/img/'' \<noteq> [] \<and> last ''http://a/img/'' = CHR ''/'' \<and>
   filename ''http://a/img/'' = [] \<and> full_path ''out'' ''http://a/img/'' = ''out/'' \<and>
   filter is_retrieve (trace (snd (download_file sample_env ''http://a/img/'' ''out'' False True False False 0
      (start Map.empty)))) = [Retrieve ''http://a/img/'' ''out/''] \<and>
   files (snd (download_file sample_env ''http://a/img/'' ''out'' False True False False 0
      (start Map.empty))) ''out/img'' = None"
  using download_file_trailing_slash [of "''http://a/img/''" "''out''" sample_env False True False False 0
      "start Map.empty"]
  by (simp add: start_def)


lemma download_all_raises:
  assumes "download_all E dir dbg sil halt dry wt pre w = (Inr (), w1)"
      and "download_file E link dir dbg sil halt dry wt w1 = (Inl e, w2)"
  shows "download_all E dir dbg sil halt dry wt (pre @ link # post) w = (Inl e, w2)"
  using assms by (simp add: download_all_append)

text \<open>
  Claim C5, as amended. With halt-on-error set, when the links before \<open>link\<close>
  have gone through and the call for \<open>link\<close> does not return \<open>True\<close>, the
  loop ends at that link with an uncaught exception (exit status 1), whatever
  links follow: the last retrieval of the run is the failing link's, and every
  file at a path other than the failing link's own write path is as it was
  before the failing call.
\<close>

theorem halt_on_error_stops_at_failing_link:
  assumes "download_all E dir dbg sil True dry wt pre w = (Inr (), w1)"
      and "fst (download_file E link dir dbg sil True dry wt w1) \<noteq> Inr True"
  shows "(\<exists>e. download_all E dir dbg sil True dry wt (pre @ link # post) w =
                (Inl e, snd (download_file E link dir dbg sil True dry wt w1))) \<and>
         exit_status (fst (download_all E dir dbg sil True dry wt (pre @ link # post) w)) = 1 \<and>
         filter is_retrieve (trace (snd (download_all E dir dbg sil True dry wt (pre @ link # post) w))) =
           filter is_retrieve (trace w1) @ [Retrieve link (full_path dir link)] \<and>
         (\<forall>p. p \<noteq> full_path dir link \<longrightarrow>
            files (snd (download_all E dir dbg sil True dry wt (pre @ link # post) w)) p = files w1 p)"
proof -
  let ?r = "download_file E link dir dbg sil True dry wt w1"
  let ?all = "download_all E dir dbg sil True dry wt (pre @ link # post) w"
  have res: "fst ?r = Inl (TypeError ''not all arguments converted during string formatting'')"
    and live: "\<not> dry"
    using download_file_result [of E link dir dbg sil True dry wt w1] assms(2) by auto
  then have "?r = (Inl (TypeError ''not all arguments converted during string formatting''), snd ?r)"
    by (metis prod.collapse)
  from download_all_raises [OF assms(1) this]
  have all: "?all = (Inl (TypeError ''not all arguments converted during string formatting''), snd ?r)" .
  have status: "exit_status (fst ?all) = 1"
    unfolding all by (simp add: exit_status_def)
  have retr: "filter is_retrieve (trace (snd ?all)) =
      filter is_retrieve (trace w1) @ [Retrieve link (full_path dir link)]"
    unfolding all using live download_file_retrievals [of E link dir dbg sil True dry wt w1]
    by simp
  have frame: "\<forall>p. p \<noteq> full_path dir link \<longrightarrow> files (snd ?all) p = files w1 p"
    unfolding all using download_file_files_frame [of _ dir link E dbg sil True dry wt w1]
    by simp
  from all status retr frame show ?thesis by blast
qed

lemma sample_first_link:
  "download_file sample_env ''http://a/x.jpg'' ''out'' False True True False 0 (start Map.empty) =
     (Inr True, \<lparr>files = [''out/x.jpg'' \<mapsto> ''AAAA''],
               trace = [Retrieve ''http://a/x.jpg'' ''out/x.jpg'', Sleep 0]\<rparr>)"
  by (simp add: download_file_eq download_announce_eq download_try_live_eq
      sample_env_def start_def full_path_def filename_def)

lemma sample_second_link:
  "download_file sample_env ''http://b/x.jpg'' ''out'' False True True False 0
     \<lparr>files = [''out/x.jpg'' \<mapsto> ''AAAA''],
      trace = [Retrieve ''http://a/x.jpg'' ''out/x.jpg'', Sleep 0]\<rparr> =
     (Inl (TypeError ''not all arguments converted during string formatting''),
      \<lparr>files = [''out/x.jpg'' \<mapsto> ''BB''],
       trace = [Retrieve ''http://a/x.jpg'' ''out/x.jpg'', Sleep 0,
                Retrieve ''http://b/x.jpg'' ''out/x.jpg'']\<rparr>)"
  by (simp add: download_file_eq download_announce_eq download_try_live_eq download_except_eq
      sample_env_def full_path_def filename_def)

theorem halt_on_error_stops_at_failing_link_witness:
  "download_all sample_env ''out'' False True True False 0 [''http://a/x.jpg''] (start Map.empty) =
     (Inr (), \<lparr>files = [''out/x.jpg'' \<mapsto> ''AAAA''],
               trace = [Retrieve ''http://a/x.jpg'' ''out/x.jpg'', Sleep 0]\<rparr>) \<and>
   fst (download_file sample_env ''http://b/x.jpg'' ''out'' False True True False 0
     \<lparr>files = [''out/x.jpg'' \<mapsto> ''AAAA''],
      trace = [Retrieve ''http://a/x.jpg'' ''out/x.jpg'', Sleep 0]\<rparr>) \<noteq> Inr True \<and>
   exit_status (fst (download_all sample_env ''out'' False True True False 0
     ([''http://a/x.jpg''] @ ''http://b/x.jpg'' # [''http://c/y.jpg'']) (start Map.empty))) = 1 \<and>
   filter is_retrieve (trace (snd (download_all sample_env ''out'' False True True False 0
     ([''http://a/x.jpg''] @ ''http://b/x.jpg'' # [''http://c/y.jpg'']) (start Map.empty)))) =
     [Retrieve ''http://a/x.jpg'' ''out/x.jpg'', Retrieve ''http://b/x.jpg'' ''out/x.jpg''] \<and>
   files (snd (download_all sample_env ''out'' False True True False 0
     ([''http://a/x.jpg''] @ ''http://b/x.jpg'' # [''http://c/y.jpg'']) (start Map.empty))) ''out/y.jpg'' = None"
proof -
  let ?w1 = "\<lparr>files = [''out/x.jpg'' \<mapsto> ''AAAA''],
               trace = [Retrieve ''http://a/x.jpg'' ''out/x.jpg'', Sleep 0]\<rparr>"
  let ?all = "download_all sample_env ''out'' False True True False 0
     ([''http://a/x.jpg''] @ ''http://b/x.jpg'' # [''http://c/y.jpg'']) (start Map.empty)"
  have 1: "download_all sample_env ''out'' False True True False 0 [''http://a/x.jpg'']
             (start Map.empty) = (Inr (), ?w1)"
    by (simp add: sample_first_link)
  have 2: "fst (download_file sample_env ''http://b/x.jpg'' ''out'' False True True False 0 ?w1)
             \<noteq> Inr True"
    by (simp add: sample_second_link)
  have 3: "''out/y.jpg'' \<noteq> full_path ''out'' ''http://b/x.jpg''"
    and 4: "full_path ''out'' ''http://b/x.jpg'' = ''out/x.jpg''"
    by (simp_all add: full_path_def filename_def)
  note t = halt_on_error_stops_at_failing_link [OF 1 2, of "[''http://c/y.jpg'']"]
  from t have "exit_status (fst ?all) = 1" by blast
  moreover from t have "filter is_retrieve (trace (snd ?all)) =
      filter is_retrieve (trace ?w1) @ [Retrieve ''http://b/x.jpg'' (full_path ''out'' ''http://b/x.jpg'')]"
    by blast
  then have "filter is_retrieve (trace (snd ?all)) =
      [Retrieve ''http://a/x.jpg'' ''out/x.jpg'', Retrieve ''http://b/x.jpg'' ''out/x.jpg'']"
    by (simp add: 4 is_retrieve_def)
  moreover from t 3 have "files (snd ?all) ''out/y.jpg'' = files ?w1 ''out/y.jpg''" by blast
  then have "files (snd ?all) ''out/y.jpg'' = None" by simp
  ultimately show ?thesis using 1 2 by blast
qed

subsection \<open>main: the path check comes before the network\<close>

lemma fmt_checking:
  "str_format ''Checking if path is valid by touching %s'' [Str a] =
     Inr (''Checking if path is valid by touching '' @ a)"
  by simp

lemma fmt_unwritable:
  "str_format ''Error, could not write to destination directory %s'' [Str a] =
     Inr (''Error, could not write to destination directory '' @ a)"
  by simp

lemma fmt_scraping: "str_format ''[+] Scraping %s'' [Str a] = Inr (''[+] Scraping '' @ a)"
  by simp

lemma fmt_saving: "str_format ''[+] Saving to %s'' [Str a] = Inr (''[+] Saving to '' @ a)"
  by simp

lemma main_greeting_eq:
  "main_greeting E a w =
     (Inr (), w\<lparr>trace := trace w @
        (if debug a then [Print ''[!] DEBUG mode on.'', Print ''Arguments object:'',
                          Print (CHR 0x09 # namespace_str E)] else []) @
        (if silent a then [] else [Print (''[+] Scraping '' @ target_url a),
                                   Print (''[+] Saving to '' @ destination_directory a)])\<rparr>)"
  by (simp add: main_greeting_def io_defs fmt_scraping fmt_saving del: str_format.simps)

lemma check_if_valid_path_eq:
  "check_if_valid_path E path dbg w =
     (let p = path @ ''/'' @ now_digest E w;
          w1 = (if dbg then w\<lparr>trace := trace w @
                   [Print (''Checking if path is valid by touching '' @ p)]\<rparr> else w)
      in case os_open_x E w1 p of
           Raised s \<Rightarrow>
             (Inl (SystemExit (''Error, could not write to destination directory '' @ path)),
              w1\<lparr>trace := trace w1 @ [Probe_Create p] @ (if dbg then [Print s] else [])\<rparr>)
         | Done u \<Rightarrow>
             (let w2 = w1\<lparr>files := (files w1)(p \<mapsto> []),
                          trace := trace w1 @ [Probe_Create p] @
                            (if dbg then [Print ''Successfully opened test file.'',
                                          Print ''Deleting test file...''] else [])\<rparr>
              in case os_unlink E w2 p of
                   Raised s \<Rightarrow>
                     (Inl (SystemExit (''Error, could not write to destination directory '' @ path)),
                      w2\<lparr>trace := trace w2 @ [Probe_Unlink p] @ (if dbg then [Print s] else [])\<rparr>)
                 | Done u \<Rightarrow>
                     (Inr True, w2\<lparr>files := (files w2)(p := None),
                                  trace := trace w2 @ [Probe_Unlink p]\<rparr>)))"
  by (simp add: check_if_valid_path_def io_defs open_x_def unlink_def exc_text_def
      fmt_checking fmt_unwritable Let_def del: str_format.simps split: attempt.splits)


lemma check_if_valid_path_network:
  "filter is_network (trace (snd (check_if_valid_path E path dbg w))) = filter is_network (trace w)"
  by (simp add: check_if_valid_path_eq Let_def is_network_def split: attempt.splits)

lemma check_if_valid_path_unwritable:
  assumes "\<And>w name. os_open_x E w (path @ ''/'' @ name) \<noteq> Done ()"
  shows "check_if_valid_path E path dbg w =
           (Inl (SystemExit (''Error, could not write to destination directory '' @ path)),
            snd (check_if_valid_path E path dbg w))"
    and "files (snd (check_if_valid_path E path dbg w)) = files w"
  using assms by (auto simp: check_if_valid_path_eq Let_def split: attempt.splits)

lemma main_check_gates_network:
  assumes "fst (check_if_valid_path E (destination_directory a) (debug a)
                  (snd (main_greeting E a w))) = Inl e"
      and "py_int E (wait_time a) = Done t"
  shows "main E a w =
           (Inl e, snd (check_if_valid_path E (destination_directory a) (debug a)
                          (snd (main_greeting E a w))))"
proof -
  obtain w2 where c: "check_if_valid_path E (destination_directory a) (debug a)
      (snd (main_greeting E a w)) = (Inl e, w2)"
    using assms(1) by (metis prod.collapse)
  obtain w1 where g: "main_greeting E a w = (Inr (), w1)"
    by (simp add: main_greeting_eq)
  from c g assms(2) show ?thesis
    by (simp add: main_def io_bind_def of_attempt_def io_return_def)
qed

text \<open>
  Claim C7. When no file can be created in the destination directory, \<open>main\<close>
  ends with a non-zero exit status (the \<^verbatim>\<open>SystemExit\<close> of the path check, or
  the failure of \<^verbatim>\<open>int(args.wait_time)\<close> before it), its trace holds no
  network event, neither the fetch of the page nor a retrieval, and the files
  are as they were.
\<close>

theorem main_unwritable_destination_aborts_before_network:
  assumes "\<And>w name. os_open_x E w (destination_directory a @ ''/'' @ name) \<noteq> Done ()"
  shows "fst (main E a (start fs)) =
           (case py_int E (wait_time a) of
              Raised s \<Rightarrow> Inl (LibraryError s)
            | Done t \<Rightarrow> Inl (SystemExit (''Error, could not write to destination directory '' @
                                        destination_directory a))) \<and>
         exit_status (fst (main E a (start fs))) = 1 \<and>
         filter is_network (trace (snd (main E a (start fs)))) = [] \<and>
         files (snd (main E a (start fs))) = fs"
proof (cases "py_int E (wait_time a)")
  case (Raised s)
  then have "main E a (start fs) = (Inl (LibraryError s), start fs)"
    by (simp add: main_def io_bind_def of_attempt_def io_raise_def)
  with Raised show ?thesis
    by (simp add: exit_status_def start_def)
next
  case (Done t)
  let ?w1 = "snd (main_greeting E a (start fs))"
  let ?c = "check_if_valid_path E (destination_directory a) (debug a) ?w1"
  let ?e = "SystemExit (''Error, could not write to destination directory '' @ destination_directory a)"
  have c: "fst ?c = Inl ?e" and f: "files (snd ?c) = files ?w1"
    using check_if_valid_path_unwritable [OF assms, of "debug a" ?w1] by (metis fst_conv)+
  have m: "main E a (start fs) = (Inl ?e, snd ?c)"
    using main_check_gates_network [OF c Done] .
  have n: "filter is_network (trace (snd ?c)) = []"
    by (simp add: check_if_valid_path_network main_greeting_eq is_network_def start_def)
  have "files ?w1 = fs"
    by (simp add: main_greeting_eq start_def)
  with m n f Done show ?thesis
    by (simp add: exit_status_def)
qed

theorem main_unwritable_destination_aborts_before_network_witness:
  "os_open_x sample_env (start Map.empty) (''missing'' @ ''/'' @ ''0123456789'') \<noteq> Done () \<and>
   fst (main sample_env
          \<lparr>target_url = ''http://example.com/page'', destination_directory = ''missing'',
           debug = False, file_types = ''jpg'', silent = False, halt_error = False,
           dry_run = False, wait_time = ''1''\<rparr> (start Map.empty)) =
     Inl (SystemExit ''Error, could not write to destination directory missing'') \<and>
   filter is_network (trace (snd (main sample_env
          \<lparr>target_url = ''http://example.com/page'', destination_directory = ''missing'',
           debug = False, file_types = ''jpg'', silent = False, halt_error = False,
           dry_run = False, wait_time = ''1''\<rparr> (start Map.empty)))) = []"
proof -
  let ?a = "\<lparr>target_url = ''http://example.com/page'', destination_directory = ''missing'',
           debug = False, file_types = ''jpg'', silent = False, halt_error = False,
           dry_run = False, wait_time = ''1''\<rparr>"
  have h: "\<And>w name. os_open_x sample_env w (destination_directory ?a @ ''/'' @ name) \<noteq> Done ()"
    by (simp add: sample_env_def)
  have i: "py_int sample_env (wait_time ?a) = Done 1"
    by (simp add: sample_env_def)
  from main_unwritable_destination_aborts_before_network [of sample_env ?a Map.empty, OF h] i
  show ?thesis
    by (simp add: sample_env_def)
qed


lemma check_if_valid_path_result:
  "fst (check_if_valid_path E path dbg w) = Inr True \<or>
   fst (check_if_valid_path E path dbg w) =
     Inl (SystemExit (''Error, could not write to destination directory '' @ path))"
  by (simp add: check_if_valid_path_eq Let_def split: attempt.splits)

lemma main_network_needs_check:
  assumes "filter is_network (trace (snd (main E a (start fs)))) \<noteq> []"
  shows "fst (check_if_valid_path E (destination_directory a) (debug a)
                (snd (main_greeting E a (start fs)))) = Inr True"
proof (rule ccontr)
  let ?w1 = "snd (main_greeting E a (start fs))"
  let ?c = "check_if_valid_path E (destination_directory a) (debug a) ?w1"
  assume "fst ?c \<noteq> Inr True"
  then have c: "fst ?c = Inl (SystemExit (''Error, could not write to destination directory '' @
      destination_directory a))"
    using check_if_valid_path_result [of E "destination_directory a" "debug a" ?w1] by blast
  have n: "filter is_network (trace (snd ?c)) = []"
    by (simp add: check_if_valid_path_network main_greeting_eq is_network_def start_def)
  show False
  proof (cases "py_int E (wait_time a)")
    case (Raised s)
    then have "main E a (start fs) = (Inl (LibraryError s), start fs)"
      by (simp add: main_def io_bind_def of_attempt_def io_raise_def)
    with assms show False by (simp add: start_def)
  next
    case (Done t)
    from main_check_gates_network [OF c Done] n assms show False by simp
  qed
qed

lemma filter_loop_quiet:
  "filter is_network (snd (filter_loop exts dbg links (acc, out))) = filter is_network out"
  by (induction links arbitrary: acc out) (simp_all add: Let_def is_network_def)

lemma protocol_loop_quiet:
  "filter is_network (snd (protocol_loop p dbg urls (acc, out))) = filter is_network out"
  by (induction urls arbitrary: acc out) (simp_all add: Let_def is_network_def)

lemma find_hotlinks_quiet:
  "filter is_network (snd (find_hotlinks P html exts dbg)) = []"
proof -
  have "filter is_network (map (\<lambda>link. Print (CHR 0x09 # link)) ls) = []" for ls
    by (induction ls) (simp_all add: is_network_def)
  then show ?thesis
    by (simp add: find_hotlinks_def Let_def case_prod_beta filter_loop_quiet is_network_def)
qed

lemma check_and_fix_protocol_quiet:
  "filter is_network (snd (check_and_fix_protocol target urls dbg)) = []"
  by (simp add: check_and_fix_protocol_def Let_def protocol_loop_quiet)

lemma fmt_found:
  "str_format ''[+] Found %d hotlinks.'' [Num n] = Inr (''[+] Found '' @ str_int n @ '' hotlinks.'')"
  by simp

lemma print_links_eq:
  "print_links links w = (Inr (), w\<lparr>trace := trace w @ map (\<lambda>l. Print (CHR 0x09 # l)) links\<rparr>)"
  by (induction links arbitrary: w) (simp_all add: io_defs)

lemma main_report_eq:
  "main_report sil links w =
     (Inr (), w\<lparr>trace := trace w @
        (if sil then []
         else Print (''[+] Found '' @ str_int (int (length links)) @ '' hotlinks.'') #
              map (\<lambda>l. Print (CHR 0x09 # l)) links @ [Print [CHR 0x0A]])\<rparr>)"
  by (simp add: main_report_def io_defs fmt_found print_links_eq del: str_format.simps)

lemma main_reaches_downloads:
  assumes "py_int E (wait_time a) = Done t"
      and "check_if_valid_path E (destination_directory a) (debug a)
             (snd (main_greeting E a w)) = (Inr ok, w2)"
      and "get_target_html E (target_url a) (debug a) w2 = (Inr html, w3)"
  shows "\<exists>out. main E a w =
           download_all E (destination_directory a) (debug a) (silent a) (halt_error a) (dry_run a) t
             (links_to_download E a html) (w3\<lparr>trace := trace w3 @ out\<rparr>) \<and>
           filter is_network out = []"
proof -
  obtain found out1 where f: "find_hotlinks (BeautifulSoup E) html (file_types a) (debug a) = (found, out1)"
    by (cases "find_hotlinks (BeautifulSoup E) html (file_types a) (debug a)")
  obtain links out2 where p: "check_and_fix_protocol (target_url a) found (debug a) = (links, out2)"
    by (cases "check_and_fix_protocol (target_url a) found (debug a)")
  obtain w1 where g: "main_greeting E a w = (Inr (), w1)"
    by (simp add: main_greeting_eq)
  let ?out3 = "if silent a then []
         else Print (''[+] Found '' @ str_int (int (length links)) @ '' hotlinks.'') #
              map (\<lambda>l. Print (CHR 0x09 # l)) links @ [Print [CHR 0x0A]]"
  have "main E a w =
      download_all E (destination_directory a) (debug a) (silent a) (halt_error a) (dry_run a) t
        links (w3\<lparr>trace := trace w3 @ (out1 @ out2 @ ?out3)\<rparr>)"
    using assms f p g
    by (simp add: main_def io_bind_def of_attempt_def io_return_def emit_all_def main_report_eq)
  moreover have "links_to_download E a html = links"
    by (simp add: links_to_download_def f p)
  moreover have "filter is_network (map (\<lambda>l. Print (CHR 0x09 # l)) ls) = []" for ls
    by (induction ls) (simp_all add: is_network_def)
  then have "filter is_network (out1 @ out2 @ ?out3) = []"
    using find_hotlinks_quiet [of "BeautifulSoup E" html "file_types a" "debug a"]
      check_and_fix_protocol_quiet [of "target_url a" found "debug a"]
    by (simp add: f p is_network_def)
  ultimately show ?thesis by metis
qed

subsection \<open>A run of main on the sample environment\<close>

lemma sample_links:
  "links_to_download sample_env sample_args ''<html></html>'' =
     [''http://a/x.jpg'', ''http://b/x.jpg'', ''http://c/y.jpg'']"
  by (simp add: links_to_download_def sample_env_def sample_args_def
     find_hotlinks_filter_eq check_and_fix_protocol_map_eq deduped_hotlinks_def find_all_href_def
     fromkeys_def after_last_def before_first_def)

lemmas sample_run_defs = main_def io_bind_def of_attempt_def io_return_def emit_all_def main_report_eq
  main_greeting_eq check_if_valid_path_eq get_target_html_def io_try_def io_when_def urlopen_def
  sample_env_def sample_args_def start_def
  find_hotlinks_def check_and_fix_protocol_def deduped_hotlinks_def find_all_href_def
  fromkeys_def link_ext_def Let_def
  download_file_eq download_announce_eq download_try_live_eq download_except_eq
  full_path_def filename_def is_retrieve_def str_int_def digit_char_def

text \<open>
  Claim C5 as stated fails where the failing link has the write path of an
  earlier link: the first link saves \<open>out/x.jpg\<close>, the second, with the same
  last segment, breaks off after writing part of it, and the run halts with
  the earlier file overwritten.
\<close>

theorem halt_on_error_overwrites_earlier_file:
  "fst (download_all sample_env ''out'' False True True False 0 [''http://a/x.jpg''] (start Map.empty))
     = Inr () \<and>
   files (snd (download_all sample_env ''out'' False True True False 0 [''http://a/x.jpg'']
     (start Map.empty))) ''out/x.jpg'' = Some ''AAAA'' \<and>
   exit_status (fst (download_all sample_env ''out'' False True True False 0
     [''http://a/x.jpg'', ''http://b/x.jpg'', ''http://c/y.jpg''] (start Map.empty))) = 1 \<and>
   files (snd (download_all sample_env ''out'' False True True False 0
     [''http://a/x.jpg'', ''http://b/x.jpg'', ''http://c/y.jpg''] (start Map.empty))) ''out/x.jpg'' =
     Some ''BB'' \<and>
   halt_error (sample_args\<lparr>silent := True, halt_error := True\<rparr>) = True \<and>
   exit_status (fst (main sample_env (sample_args\<lparr>silent := True, halt_error := True\<rparr>)
     (start Map.empty))) = 1 \<and>
   files (snd (main sample_env (sample_args\<lparr>silent := True, halt_error := True\<rparr>)
     (start Map.empty))) ''out/x.jpg'' = Some ''BB''"
  by (simp add: sample_first_link sample_second_link exit_status_def)
     (simp add: sample_run_defs)

text \<open>
  With silent set and halt-on-error unset the handler prints nothing and
  returns \<open>False\<close>, so the loop always reaches its end.
\<close>

lemma download_all_silent_completes:
  "fst (download_all E dir dbg True False dry wt links w) = Inr ()"
proof (induction links arbitrary: w)
  case Nil
  then show ?case by simp
next
  case (Cons link rest)
  obtain r w' where d: "download_file E link dir dbg True False dry wt w = (r, w')"
    by (cases "download_file E link dir dbg True False dry wt w")
  with download_file_result [of E link dir dbg True False dry wt w]
  have "r = Inr True \<or> r = Inr False" by auto
  with d Cons.IH [of w'] show ?case by auto
qed

text \<open>
  Claim C4 at a failing input: halt-on-error unset, silent unset, a link whose
  retrieval fails. \<^verbatim>\<open>"[-] Download Failed" % url\<close> raises \<^verbatim>\<open>TypeError\<close> in
  the handler, \<open>download_file\<close> does not return \<open>False\<close>, and the loop, and
  with it \<open>main\<close>, ends before the next link is tried.
\<close>

theorem download_failure_not_silent_ends_run:
  "fst (download_file sample_env ''http://c/y.jpg'' ''out'' False False False False 0 (start Map.empty)) =
     Inl (TypeError ''not all arguments converted during string formatting'') \<and>
   fst (download_all sample_env ''out'' False False False False 0
     [''http://c/y.jpg'', ''http://a/x.jpg''] (start Map.empty)) =
     Inl (TypeError ''not all arguments converted during string formatting'') \<and>
   filter is_retrieve (trace (snd (download_all sample_env ''out'' False False False False 0
     [''http://c/y.jpg'', ''http://a/x.jpg''] (start Map.empty)))) =
     [Retrieve ''http://c/y.jpg'' ''out/y.jpg''] \<and>
   halt_error sample_args = False \<and> silent sample_args = False \<and>
   fst (main sample_env sample_args (start Map.empty)) =
     Inl (TypeError ''not all arguments converted during string formatting'') \<and>
   exit_status (fst (main sample_env sample_args (start Map.empty))) = 1 \<and>
   filter is_retrieve (trace (snd (main sample_env sample_args (start Map.empty)))) =
     [Retrieve ''http://a/x.jpg'' ''out/x.jpg'', Retrieve ''http://b/x.jpg'' ''out/x.jpg'']"
  by (simp add: download_file_eq download_announce_eq download_try_live_eq download_except_eq
      sample_env_def start_def full_path_def filename_def is_retrieve_def)
     (simp add: sample_run_defs exit_status_def)

text \<open>
  Claim C8 at a failing input: the same link, directory and failing retrieval,
  halt-on-error unset. With silent set the call returns \<open>False\<close>; with silent
  unset it raises \<^verbatim>\<open>TypeError\<close>.
\<close>

theorem silent_changes_download_result:
  "fst (download_file sample_env ''http://c/y.jpg'' ''out'' False True False False 0 (start Map.empty)) =
     Inr False \<and>
   fst (download_file sample_env ''http://c/y.jpg'' ''out'' False False False False 0 (start Map.empty)) =
     Inl (TypeError ''not all arguments converted during string formatting'')"
  by (simp add: download_file_eq download_announce_eq download_try_live_eq download_except_eq
      sample_env_def start_def full_path_def filename_def)

end
